theory Spec2Isabelle
  imports Complex_Main "HOL-Library.Word" "HOL-Library.Extended_Nat"
begin

unbundle bit_operations_syntax

section \<open>Findings and text lines\<close>

text \<open>
  \<^verbatim>\<open>TextlintMessage\<close> and \<^verbatim>\<open>TextlintKernelMessage\<close> of \<^verbatim>\<open>types.ts\<close> differ only in
  whether \<^verbatim>\<open>ruleId\<close> is optional, so the record is parametric in the type of that field.
  A JavaScript \<^verbatim>\<open>number\<close> holding a line or column is an \<open>int\<close>; an optional field is an
  \<open>option\<close>.
\<close>

record 'r Message =
  line :: int
  column :: int
  endLine :: "int option"
  endColumn :: "int option"
  message :: string
  ruleId :: 'r
  severity :: int
  suggested_fix :: "((int \<times> int) \<times> string) option"

type_synonym TextlintMessage = "string Message"
type_synonym TextlintKernelMessage = "string option Message"

text \<open>
  JavaScript truthiness of an optional number, as tested by \<^verbatim>\<open>msg.endLine ? ... : undefined\<close>:
  \<^verbatim>\<open>undefined\<close> and \<^verbatim>\<open>0\<close> are both falsy.
\<close>

definition truthy_number :: "int option \<Rightarrow> bool" where
  "truthy_number v = (case v of None \<Rightarrow> False | Some n \<Rightarrow> n \<noteq> 0)"

text \<open>\<^verbatim>\<open>content.split('\n')\<close>: never empty, the empty text is one empty line.\<close>

primrec split_lines :: "string \<Rightarrow> string list" where
  "split_lines [] = [[]]"
| "split_lines (c # cs) =
     (if c = CHR 0x0A then [] # split_lines cs
      else (case split_lines cs of [] \<Rightarrow> [[c]] | l # ls \<Rightarrow> (c # l) # ls))"

text \<open>\<^verbatim>\<open>lines.join('\n')\<close>: the empty array joins to the empty text.\<close>

fun join_lines :: "string list \<Rightarrow> string" where
  "join_lines [] = []"
| "join_lines [l] = l"
| "join_lines (l # ls) = l @ CHR 0x0A # join_lines ls"

text \<open>
  \<^verbatim>\<open>Array.prototype.slice(lo, hi)\<close>: a negative index counts from the end, both indices are
  clamped to the array, and an inverted range is empty.
\<close>

definition slice :: "'a list \<Rightarrow> int \<Rightarrow> int \<Rightarrow> 'a list" where
  "slice xs lo hi =
     (let n = int (length xs);
          k = (if lo < 0 then max (n + lo) 0 else min lo n);
          f = (if hi < 0 then max (n + hi) 0 else min hi n)
      in take (nat (f - k)) (drop (nat k) xs))"

section \<open>Promises\<close>

text \<open>
  An asynchronous call either settles after some time (in milliseconds), resolving with a
  value or rejecting with an error, or never settles. The analyzer is such a call: its
  behaviour on each text is an input of the model.
\<close>

datatype error = TimeoutError rat | AnalyzerError string | TypeError

datatype 'a settlement = Resolve 'a | Reject error

datatype 'a promise = Settles rat "'a settlement" | Never

section \<open>DifferentialProcessor\<close>

text \<open>
  A changed region \<^verbatim>\<open>{ start, end }\<close>, both 0-based and inclusive (\<open>end\<close> is a keyword of
  the theory language, hence the prefixed field names).
\<close>

record Region =
  region_start :: int
  region_end :: int

text \<open>
  \<^verbatim>\<open>CachedResult\<close>, the snapshot kept per file path. Its \<^verbatim>\<open>timestamp\<close> is \<open>snapshot_timestamp\<close>
  here, the plain name being the field of \<^verbatim>\<open>CacheEntry\<close> below.
\<close>

record CachedResult =
  content :: string
  messages :: "TextlintMessage list"
  snapshot_timestamp :: int

text \<open>\<^verbatim>\<open>lines[i] || ''\<close>: a line past the end of the array reads as the empty line.\<close>

definition line_at :: "string list \<Rightarrow> nat \<Rightarrow> string" where
  "line_at ls i = (if i < length ls then ls ! i else [])"

text \<open>
  One iteration of the scanning loop of \<^verbatim>\<open>findChangedRegions\<close>, on the pair
  \<^verbatim>\<open>(currentRegion, changedRegions)\<close>. The margin \<^verbatim>\<open>contextLines\<close> is a number of lines, a
  natural number; line indices and region bounds are integers.
\<close>

definition scan_line ::
  "string list \<Rightarrow> string list \<Rightarrow> nat \<Rightarrow> nat \<Rightarrow> Region option \<times> Region list
     \<Rightarrow> Region option \<times> Region list" where
  "scan_line oldLines newLines contextLines i s =
     (case s of (currentRegion, changedRegions) \<Rightarrow>
        if line_at oldLines i \<noteq> line_at newLines i then
          (case currentRegion of
             None \<Rightarrow>
               (Some \<lparr>region_start = max 0 (int i - int contextLines),
                      region_end = int i + int contextLines\<rparr>, changedRegions)
           | Some r \<Rightarrow>
               (Some (r\<lparr>region_end := int i + int contextLines\<rparr>), changedRegions))
        else
          (case currentRegion of
             Some r \<Rightarrow>
               if int i > region_end r then (None, changedRegions @ [r]) else s
           | None \<Rightarrow> s))"

text \<open>
  The loop of \<^verbatim>\<open>mergeOverlappingRegions\<close>: \<open>merged\<close> is never empty, and its last element is
  the one the source updates in place.
\<close>

fun merge_loop :: "Region list \<Rightarrow> Region list \<Rightarrow> Region list" where
  "merge_loop merged [] = merged"
| "merge_loop merged (current # rest) =
     (if region_start current \<le> region_end (last merged)
      then merge_loop
             (butlast merged @
                [(last merged)\<lparr>region_end :=
                    max (region_end (last merged)) (region_end current)\<rparr>]) rest
      else merge_loop (merged @ [current]) rest)"

fun mergeOverlappingRegions :: "Region list \<Rightarrow> Region list" where
  "mergeOverlappingRegions [] = []"
| "mergeOverlappingRegions (r # regions) = merge_loop [r] regions"

definition scan_lines :: "string list \<Rightarrow> string list \<Rightarrow> nat \<Rightarrow> Region list" where
  "scan_lines oldLines newLines contextLines =
     (case fold (scan_line oldLines newLines contextLines)
             [0 ..< max (length oldLines) (length newLines)] (None, []) of
        (Some r, changedRegions) \<Rightarrow> changedRegions @ [r]
      | (None, changedRegions) \<Rightarrow> changedRegions)"

definition findChangedRegions :: "string \<Rightarrow> string \<Rightarrow> nat \<Rightarrow> Region list" where
  "findChangedRegions oldContent newContent contextLines =
     mergeOverlappingRegions
       (scan_lines (split_lines oldContent) (split_lines newContent) contextLines)"

definition extractRegionContent :: "string \<Rightarrow> Region list \<Rightarrow> string" where
  "extractRegionContent text regions =
     join_lines
       (concat (map (\<lambda>region. slice (split_lines text) (region_start region)
                                  (region_end region + 1)) regions))"

text \<open>
  The inner loop of \<^verbatim>\<open>adjustLineNumbers\<close>: the first region with at least \<open>l\<close> lines decides,
  and a line no region takes stays as it is.
\<close>

fun adjustedLine :: "int \<Rightarrow> Region list \<Rightarrow> int" where
  "adjustedLine l [] = l"
| "adjustedLine l (region # regions) =
     (if l \<le> region_end region - region_start region + 1 then region_start region + l
      else adjustedLine l regions)"

definition adjustLineNumbers ::
  "TextlintMessage list \<Rightarrow> Region list \<Rightarrow> TextlintMessage list" where
  "adjustLineNumbers msgs regions =
     map (\<lambda>m. m\<lparr>line := adjustedLine (line m) regions,
                 endLine := (if truthy_number (endLine m)
                             then Some (adjustedLine (line m) regions) else None)\<rparr>) msgs"

definition inChangedRegion :: "Region list \<Rightarrow> TextlintMessage \<Rightarrow> bool" where
  "inChangedRegion changedRegions m =
     list_ex (\<lambda>region. line m \<ge> region_start region \<and> line m \<le> region_end region)
       changedRegions"

text \<open>
  \<^verbatim>\<open>Array.prototype.sort\<close> with the comparator \<^verbatim>\<open>a.line - b.line\<close> is a stable sort on the
  line, which \<open>sort_key\<close> is.
\<close>

definition mergeResults ::
  "TextlintMessage list \<Rightarrow> TextlintMessage list \<Rightarrow> Region list \<Rightarrow> TextlintMessage list" where
  "mergeResults oldMessages newMessages changedRegions =
     sort_key line
       (filter (\<lambda>m. \<not> inChangedRegion changedRegions m) oldMessages @ newMessages)"

definition changedLines :: "Region list \<Rightarrow> int" where
  "changedLines changedRegions =
     fold (\<lambda>region sum. sum + (region_end region - region_start region + 1)) changedRegions 0"

text \<open>
  One call of \<^verbatim>\<open>processChangedRegionsOnly\<close>. The static map \<^verbatim>\<open>previousResults\<close> is passed in
  and returned; \<open>now\<close> is what \<^verbatim>\<open>Date.now()\<close> gives when a snapshot is stored; \<open>analyzed\<close>
  lists the texts handed to \<^verbatim>\<open>lintFunction\<close>, in call order. A call of \<^verbatim>\<open>lintFunction\<close> that
  rejects or never settles leaves the map as it was. The quotient \<^verbatim>\<open>changedLines / totalLines\<close>
  is taken in the reals: both are integers far below \<open>2^53\<close>, where the comparison of the
  floating-point quotient with \<open>0.5\<close> agrees with the exact one.
\<close>

record DiffRun =
  returned :: "TextlintMessage list promise"
  previousResults :: "string \<rightharpoonup> CachedResult"
  analyzed :: "string list"

definition fullAnalysis ::
  "(string \<rightharpoonup> CachedResult) \<Rightarrow> int \<Rightarrow> string \<Rightarrow> string
     \<Rightarrow> (string \<Rightarrow> TextlintMessage list promise) \<Rightarrow> DiffRun" where
  "fullAnalysis store now filePath newContent lintFunction =
     (case lintFunction newContent of
        Settles t (Resolve msgs) \<Rightarrow>
          \<lparr>returned = Settles t (Resolve msgs),
           previousResults =
             store(filePath \<mapsto> \<lparr>content = newContent, messages = msgs, snapshot_timestamp = now\<rparr>),
           analyzed = [newContent]\<rparr>
      | p \<Rightarrow> \<lparr>returned = p, previousResults = store, analyzed = [newContent]\<rparr>)"

definition processChangedRegionsOnly ::
  "(string \<rightharpoonup> CachedResult) \<Rightarrow> int \<Rightarrow> string \<Rightarrow> string
     \<Rightarrow> (string \<Rightarrow> TextlintMessage list promise) \<Rightarrow> DiffRun" where
  "processChangedRegionsOnly store now filePath newContent lintFunction =
     (case store filePath of
        None \<Rightarrow> fullAnalysis store now filePath newContent lintFunction
      | Some cached \<Rightarrow>
          (let changedRegions = findChangedRegions (content cached) newContent 5 in
           if length changedRegions = 0 then
             \<lparr>returned = Settles 0 (Resolve (messages cached)),
              previousResults = store, analyzed = []\<rparr>
           else if real_of_int (changedLines changedRegions)
                     / real (length (split_lines newContent)) > 0.5 then
             fullAnalysis store now filePath newContent lintFunction
           else
             (let regionContent = extractRegionContent newContent changedRegions in
              case lintFunction regionContent of
                Settles t (Resolve regionMessages) \<Rightarrow>
                  (let mergedMessages =
                         mergeResults (messages cached)
                           (adjustLineNumbers regionMessages changedRegions) changedRegions
                   in \<lparr>returned = Settles t (Resolve mergedMessages),
                       previousResults =
                         store(filePath \<mapsto> \<lparr>content = newContent, messages = mergedMessages,
                                             snapshot_timestamp = now\<rparr>),
                       analyzed = [regionContent]\<rparr>)
              | p \<Rightarrow> \<lparr>returned = p, previousResults = store, analyzed = [regionContent]\<rparr>)))"

section \<open>Cache\<close>

text \<open>
  \<^verbatim>\<open>CacheEntry<T>\<close> of \<^verbatim>\<open>types.ts\<close> and the class \<^verbatim>\<open>Cache<T>\<close> of \<^verbatim>\<open>utils/Cache.ts\<close>: a map from
  keys to entries and a time to live. Each method takes the cache and the value \<open>now\<close> of
  \<^verbatim>\<open>Date.now()\<close> and returns its result with the cache it leaves behind.
\<close>

record 'a CacheEntry =
  data :: 'a
  timestamp :: int
  hash :: "string option"

record 'a Cache =
  cache :: "string \<rightharpoonup> 'a CacheEntry"
  ttl :: int

text \<open>Truthiness of an optional string, as tested by \<^verbatim>\<open>!entry.hash\<close>.\<close>

definition truthy_string :: "string option \<Rightarrow> bool" where
  "truthy_string v = (case v of None \<Rightarrow> False | Some s \<Rightarrow> s \<noteq> [])"

definition Cache_set :: "'a Cache \<Rightarrow> int \<Rightarrow> string \<Rightarrow> 'a \<Rightarrow> string option \<Rightarrow> 'a Cache" where
  "Cache_set c now key v h =
     c\<lparr>cache := (cache c)(key \<mapsto> \<lparr>data = v, timestamp = now, hash = h\<rparr>)\<rparr>"

definition Cache_delete :: "'a Cache \<Rightarrow> string \<Rightarrow> 'a Cache" where
  "Cache_delete c key = c\<lparr>cache := (cache c)(key := None)\<rparr>"

definition Cache_get :: "'a Cache \<Rightarrow> int \<Rightarrow> string \<Rightarrow> 'a option \<times> 'a Cache" where
  "Cache_get c now key =
     (case cache c key of
        None \<Rightarrow> (None, c)
      | Some entry \<Rightarrow>
          if now - timestamp entry > ttl c then (None, Cache_delete c key)
          else (Some (data entry), c))"

definition Cache_isValidByHash ::
  "'a Cache \<Rightarrow> int \<Rightarrow> string \<Rightarrow> string \<Rightarrow> bool \<times> 'a Cache" where
  "Cache_isValidByHash c now key currentHash =
     (case cache c key of
        None \<Rightarrow> (False, c)
      | Some entry \<Rightarrow>
          if \<not> truthy_string (hash entry) then (False, c)
          else if now - timestamp entry > ttl c then (False, Cache_delete c key)
          else (hash entry = Some currentHash, c))"

text \<open>
  \<^verbatim>\<open>generateSimpleHash\<close>, the fallback of \<^verbatim>\<open>generateContentHash\<close>: a 32-bit rolling hash
  (\<^verbatim>\<open>hash & hash\<close> truncates to a signed 32-bit integer after each step), printed in decimal
  with the length appended. A character is read by its code, as \<^verbatim>\<open>charCodeAt\<close> does on ASCII
  text.
\<close>

function nat_to_string :: "nat \<Rightarrow> string" where
  "nat_to_string n =
     (if n < 10 then [char_of (48 + n)]
      else nat_to_string (n div 10) @ [char_of (48 + n mod 10)])"
  by pat_completeness auto
termination
  by (relation "measure id") auto

declare nat_to_string.simps [simp del]

definition int_to_string :: "int \<Rightarrow> string" where
  "int_to_string i = (if i < 0 then CHR ''-'' # nat_to_string (nat (- i)) else nat_to_string (nat i))"

definition generateSimpleHash :: "string \<Rightarrow> string" where
  "generateSimpleHash text =
     (if length text = 0 then int_to_string 0
      else int_to_string
             (sint (fold (\<lambda>c h. (push_bit 5 h - h) + of_char c) text (0 :: 32 word)))
           @ ''_'' @ nat_to_string (length text))"

section \<open>AdaptiveProcessor\<close>

text \<open>
  \<^verbatim>\<open>maxFileSize\<close> is \<^verbatim>\<open>Infinity\<close> in the last strategy, hence an \<open>enat\<close>; the optional
  \<^verbatim>\<open>chunkSize\<close> is a number of lines.
\<close>

record ProcessingStrategy =
  maxFileSize :: enat
  enabledRules :: "string list"
  processingTimeout :: rat
  chunkSize :: "nat option"

definition STRATEGIES :: "ProcessingStrategy list" where
  "STRATEGIES =
     [\<lparr>maxFileSize = 1000, enabledRules = [''all''], processingTimeout = 15000,
       chunkSize = None\<rparr>,
      \<lparr>maxFileSize = 5000, enabledRules = [''all''], processingTimeout = 30000,
       chunkSize = Some 1000\<rparr>,
      \<lparr>maxFileSize = 10000, enabledRules = [''all''], processingTimeout = 45000,
       chunkSize = Some 500\<rparr>,
      \<lparr>maxFileSize = \<infinity>, enabledRules = [''all''], processingTimeout = 60000,
       chunkSize = Some 200\<rparr>]"

definition getOptimalStrategy :: "string \<Rightarrow> ProcessingStrategy" where
  "getOptimalStrategy text =
     (case find (\<lambda>strategy. enat (length (split_lines text)) < maxFileSize strategy) STRATEGIES of
        Some strategy \<Rightarrow> strategy
      | None \<Rightarrow> last STRATEGIES)"

text \<open>
  \<^verbatim>\<open>processWithTimeout\<close>, and the same race written inline twice in
  \<^verbatim>\<open>processWithKuromojiOptimization\<close>: a timer of \<open>timeout\<close> milliseconds against the call. The
  timer is armed before the call is made, so the call wins when it settles at once (a
  settled promise is handled before any timer) or strictly before the timer fires;
  otherwise the race rejects when the timer fires.
\<close>

definition processWithTimeout :: "'a promise \<Rightarrow> rat \<Rightarrow> 'a promise" where
  "processWithTimeout call timeout =
     (case call of
        Settles t outcome \<Rightarrow>
          if t \<le> 0 \<or> t < max 0 timeout then Settles t outcome
          else Settles (max 0 timeout) (Reject (TimeoutError timeout))
      | Never \<Rightarrow> Settles (max 0 timeout) (Reject (TimeoutError timeout)))"

text \<open>
  The loop of \<^verbatim>\<open>createProcessingChunks\<close> over the lines; with a chunk size of \<open>0\<close> the source
  loop does not advance and never ends, which is \<open>None\<close>.
\<close>

function chunk_lines :: "nat \<Rightarrow> string list \<Rightarrow> string list" where
  "chunk_lines n ls =
     (if n = 0 \<or> ls = [] then [] else join_lines (take n ls) # chunk_lines n (drop n ls))"
  by pat_completeness auto
termination
  by (relation "measure (\<lambda>(n, ls). length ls)") auto

declare chunk_lines.simps [simp del]

definition createProcessingChunks :: "string \<Rightarrow> nat \<Rightarrow> string list option" where
  "createProcessingChunks text n =
     (if n = 0 then None else Some (chunk_lines n (split_lines text)))"

text \<open>
  What the analyzer resolves with: \<^verbatim>\<open>null\<close>/\<^verbatim>\<open>undefined\<close> (\<open>None\<close>) or an object whose
  \<^verbatim>\<open>messages\<close> and \<^verbatim>\<open>filePath\<close> may be missing (\<^verbatim>\<open>mergeChunkResults\<close> tests
  \<^verbatim>\<open>result && result.messages\<close>). The fields are \<open>kernel_messages\<close> and \<open>kernel_filePath\<close> here.
\<close>

record TextlintResult =
  kernel_messages :: "TextlintKernelMessage list option"
  kernel_filePath :: "string option"

text \<open>A chunk with its number of lines, and a chunk result with the chunk's number of lines.\<close>

record ChunkData =
  chunk_content :: string
  chunk_lines_count :: nat

record ChunkResult =
  result :: "TextlintResult option"
  lines :: nat

definition rebase :: "int \<Rightarrow> TextlintKernelMessage \<Rightarrow> TextlintKernelMessage" where
  "rebase lineOffset msg =
     msg\<lparr>line := line msg + lineOffset,
         endLine := (if truthy_number (endLine msg)
                     then Some (the (endLine msg) + lineOffset) else None)\<rparr>"

text \<open>The loop of \<^verbatim>\<open>mergeChunkResults\<close>, from the running \<^verbatim>\<open>lineOffset\<close>.\<close>

fun rebase_results :: "int \<Rightarrow> ChunkResult list \<Rightarrow> TextlintKernelMessage list" where
  "rebase_results lineOffset [] = []"
| "rebase_results lineOffset (item # results) =
     (case result item of
        Some r \<Rightarrow>
          (case kernel_messages r of
             Some msgs \<Rightarrow> map (rebase lineOffset) msgs
           | None \<Rightarrow> [])
      | None \<Rightarrow> [])
     @ rebase_results (lineOffset + int (lines item)) results"

definition mergeChunkResults :: "ChunkResult list \<Rightarrow> TextlintResult" where
  "mergeChunkResults results =
     (if length results = 0 then \<lparr>kernel_messages = Some [], kernel_filePath = None\<rparr>
      else \<lparr>kernel_messages = Some (sort_key line (rebase_results 0 results)),
            kernel_filePath =
              Some (case result (hd results) of
                      Some r \<Rightarrow> (case kernel_filePath r of Some p \<Rightarrow> p | None \<Rightarrow> [])
                    | None \<Rightarrow> [])\<rparr>)"

text \<open>
  The chunk loop of \<^verbatim>\<open>processWithKuromojiOptimization\<close>: the chunks are analysed one after the
  other, each raced against the chunk timer; a rejected race is caught and the chunk is
  skipped. The loop settles after the sum of the races' times with the list \<^verbatim>\<open>results\<close>.
\<close>

fun run_chunks ::
  "(string \<Rightarrow> TextlintResult option promise) \<Rightarrow> rat \<Rightarrow> ChunkData list
     \<Rightarrow> ChunkResult list promise" where
  "run_chunks processFunction chunkTimeout [] = Settles 0 (Resolve [])"
| "run_chunks processFunction chunkTimeout (chunk # chunks) =
     (case processWithTimeout (processFunction (chunk_content chunk)) chunkTimeout of
        Never \<Rightarrow> Never
      | Settles t outcome \<Rightarrow>
          (case run_chunks processFunction chunkTimeout chunks of
             Settles t' (Resolve results) \<Rightarrow>
               Settles (t + t')
                 (Resolve
                    ((case outcome of
                        Resolve r \<Rightarrow> [\<lparr>result = r, lines = chunk_lines_count chunk\<rparr>]
                      | Reject e \<Rightarrow> []) @ results))
           | Settles t' (Reject e) \<Rightarrow> Settles (t + t') (Reject e)
           | Never \<Rightarrow> Never))"

text \<open>
  \<^verbatim>\<open>processWithKuromojiOptimization\<close>. The test \<^verbatim>\<open>if (strategy.chunkSize)\<close> fails for a missing
  chunk size and for the chunk size \<open>0\<close>, the case in which \<open>createProcessingChunks\<close> has no
  value; both go to the last branch.
\<close>

definition processWithKuromojiOptimization ::
  "string \<Rightarrow> (string \<Rightarrow> TextlintResult option promise) \<Rightarrow> ProcessingStrategy
     \<Rightarrow> TextlintResult option promise" where
  "processWithKuromojiOptimization text processFunction strategy =
     (if length (split_lines text) < 1000 then processFunction text
      else
        (case chunkSize strategy of
           Some n \<Rightarrow>
             (case createProcessingChunks text n of
                Some chunks \<Rightarrow>
                  (let chunkData =
                         map (\<lambda>chunk. \<lparr>chunk_content = chunk,
                                        chunk_lines_count = length (split_lines chunk)\<rparr>) chunks;
                       chunkTimeout = processingTimeout strategy / of_nat (length chunkData)
                   in case run_chunks processFunction chunkTimeout chunkData of
                        Settles t (Resolve results) \<Rightarrow>
                          Settles t (Resolve (Some (mergeChunkResults results)))
                      | Settles t (Reject e) \<Rightarrow> Settles t (Reject e)
                      | Never \<Rightarrow> Never)
              | None \<Rightarrow>
                  processWithTimeout (processFunction text) (processingTimeout strategy))
         | None \<Rightarrow> processWithTimeout (processFunction text) (processingTimeout strategy)))"

section \<open>TextlintHighlightPlugin\<close>

text \<open>
  The part of the plugin object that \<^verbatim>\<open>lintCurrentFile\<close> reads and writes. The display is
  what the two sinks of \<^verbatim>\<open>applyResults\<close> were last given: \<open>highlights\<close> is the argument of
  \<^verbatim>\<open>editorExtension.updateHighlights\<close>, \<open>view\<close> the arguments of \<^verbatim>\<open>updateTextlintView\<close>.
  \<open>notices\<close> are the errors reported by the \<^verbatim>\<open>catch\<close> block.
\<close>

record PluginState =
  lastProcessedFile :: "string option"
  lastContentHash :: "string option"
  resultCache :: "TextlintMessage list Cache"
  highlights :: "TextlintMessage list"
  view :: "(TextlintMessage list \<times> string) option"
  notices :: "error list"
  cacheHits :: nat
  cacheMisses :: nat
  totalRequests :: nat

definition applyResults :: "PluginState \<Rightarrow> TextlintMessage list \<Rightarrow> string \<Rightarrow> PluginState" where
  "applyResults st msgs file = st\<lparr>highlights := msgs, view := Some (msgs, file)\<rparr>"

text \<open>The conversion of a kernel message: \<^verbatim>\<open>ruleId: msg.ruleId || 'unknown'\<close>.\<close>

definition toMessage :: "TextlintKernelMessage \<Rightarrow> TextlintMessage" where
  "toMessage msg =
     \<lparr>line = line msg, column = column msg, endLine = endLine msg,
      endColumn = endColumn msg, message = message msg,
      ruleId = (if truthy_string (ruleId msg) then the (ruleId msg) else ''unknown''),
      severity = severity msg, suggested_fix = suggested_fix msg\<rparr>"

text \<open>
  \<^verbatim>\<open>lintCurrentFile\<close> is asynchronous: it suspends while the analysis runs, and the document
  and the plugin may change meanwhile. The model has one function for the part up to that
  \<^verbatim>\<open>await\<close> and one for the part after it. The first returns either the state the run ends
  in, or the state it suspends in with the local variables the second part uses.
\<close>

record Pending =
  pending_file :: string
  pending_content :: string
  pending_contentHash :: string
  pending_cacheKey :: string
  pending_strategy :: ProcessingStrategy

datatype lint_step = Returned PluginState | Awaiting PluginState Pending

definition lintCurrentFile_miss ::
  "PluginState \<Rightarrow> Pending \<Rightarrow> error option \<Rightarrow> lint_step" where
  "lintCurrentFile_miss st p rulesError =
     (let st' = st\<lparr>cacheMisses := cacheMisses st + 1,
                   lastProcessedFile := Some (pending_file p),
                   lastContentHash := Some (pending_contentHash p)\<rparr>
      in case rulesError of
           Some e \<Rightarrow> Returned (st'\<lparr>notices := notices st' @ [e]\<rparr>)
         | None \<Rightarrow> Awaiting st' p)"

text \<open>
  The first part. \<open>generateContentHash\<close> is the digest function (SHA-256 where the platform
  has it, \<open>generateSimpleHash\<close> otherwise); \<open>active\<close> is the path and the text of the file of
  the active Markdown view, if any; \<open>rulesError\<close> is the error \<^verbatim>\<open>loadRules\<close> throws, if any.
\<close>

definition lintCurrentFile_begin ::
  "(string \<Rightarrow> string) \<Rightarrow> PluginState \<Rightarrow> int \<Rightarrow> (string \<times> string) option \<Rightarrow> error option
     \<Rightarrow> lint_step" where
  "lintCurrentFile_begin generateContentHash st0 now active rulesError =
     (let st = st0\<lparr>totalRequests := totalRequests st0 + 1\<rparr> in
      case active of
        None \<Rightarrow> Returned st
      | Some (file, text) \<Rightarrow>
          (let contentHash = generateContentHash text;
               cacheKey = file @ ''_'' @ contentHash;
               p = \<lparr>pending_file = file, pending_content = text,
                    pending_contentHash = contentHash, pending_cacheKey = cacheKey,
                    pending_strategy = getOptimalStrategy text\<rparr>
           in if lastProcessedFile st = Some file \<and> lastContentHash st = Some contentHash then
                (case Cache_get (resultCache st) now cacheKey of
                   (Some cachedResult, c) \<Rightarrow>
                     Returned (applyResults
                       (st\<lparr>resultCache := c, cacheHits := cacheHits st + 1\<rparr>) cachedResult file)
                 | (None, c) \<Rightarrow> Returned (applyResults (st\<lparr>resultCache := c\<rparr>) [] file))
              else
                (case Cache_isValidByHash (resultCache st) now cacheKey contentHash of
                   (True, c) \<Rightarrow>
                     (case Cache_get c now cacheKey of
                        (Some cachedResult, c') \<Rightarrow>
                          Returned (applyResults
                            (st\<lparr>resultCache := c', cacheHits := cacheHits st + 1,
                                lastProcessedFile := Some file,
                                lastContentHash := Some contentHash\<rparr>) cachedResult file)
                      | (None, c') \<Rightarrow>
                          lintCurrentFile_miss (st\<lparr>resultCache := c'\<rparr>) p rulesError)
                 | (False, c) \<Rightarrow> lintCurrentFile_miss (st\<lparr>resultCache := c\<rparr>) p rulesError)))"

text \<open>The analysis the run waits for.\<close>

definition lintCurrentFile_analysis ::
  "Pending \<Rightarrow> (string \<Rightarrow> TextlintResult option promise) \<Rightarrow> TextlintResult option promise" where
  "lintCurrentFile_analysis p lintText =
     processWithKuromojiOptimization (pending_content p) lintText (pending_strategy p)"

text \<open>
  The second part, run when the analysis has settled with \<open>outcome\<close>, on the state \<open>st\<close> of the
  plugin at that time. \<open>currentContent\<close> is the text of the file at that time: the source
  does not read it, the parameter is there for statements about it.
\<close>

definition lintCurrentFile_resume ::
  "PluginState \<Rightarrow> int \<Rightarrow> Pending \<Rightarrow> string \<Rightarrow> TextlintResult option settlement
     \<Rightarrow> PluginState" where
  "lintCurrentFile_resume st now p currentContent outcome =
     (case outcome of
        Reject e \<Rightarrow> st\<lparr>notices := notices st @ [e]\<rparr>
      | Resolve None \<Rightarrow> st\<lparr>notices := notices st @ [TypeError]\<rparr>
      | Resolve (Some r) \<Rightarrow>
          (case kernel_messages r of
             None \<Rightarrow> st\<lparr>notices := notices st @ [TypeError]\<rparr>
           | Some kernelMessages \<Rightarrow>
               (let msgs = map toMessage kernelMessages in
                applyResults
                  (st\<lparr>resultCache :=
                        Cache_set (resultCache st) now (pending_cacheKey p) msgs
                          (Some (pending_contentHash p))\<rparr>)
                  msgs (pending_file p))))"

section \<open>Auxiliary notions for the statements\<close>

text \<open>
  A chunk call fails when its race against the chunk timer rejects: the analyzer threw
  before the timer fired, or it did not settle in time.
\<close>

definition chunk_fails :: "'a promise \<Rightarrow> rat \<Rightarrow> bool" where
  "chunk_fails call timeout =
     (case processWithTimeout call timeout of Settles t (Reject e) \<Rightarrow> True | _ \<Rightarrow> False)"

text \<open>A finding with a given line and end line, for the examples.\<close>

definition finding :: "int \<Rightarrow> int option \<Rightarrow> TextlintMessage" where
  "finding l e =
     \<lparr>line = l, column = 1, endLine = e, endColumn = None, message = ''m'',
      ruleId = ''r'', severity = 1, suggested_fix = None\<rparr>"

text \<open>A chunk call succeeds when its race against the chunk timer resolves.\<close>

definition chunk_succeeds :: "'a promise \<Rightarrow> rat \<Rightarrow> bool" where
  "chunk_succeeds call timeout =
     (case processWithTimeout call timeout of Settles t (Resolve r) \<Rightarrow> True | _ \<Rightarrow> False)"

text \<open>The value a call resolves with, and the findings such a value carries.\<close>

definition resolved_value :: "TextlintResult option promise \<Rightarrow> TextlintResult option" where
  "resolved_value call = (case call of Settles t (Resolve r) \<Rightarrow> r | _ \<Rightarrow> None)"

definition result_messages :: "TextlintResult option \<Rightarrow> TextlintKernelMessage list" where
  "result_messages r =
     (case r of
        Some r' \<Rightarrow> (case kernel_messages r' of Some msgs \<Rightarrow> msgs | None \<Rightarrow> [])
      | None \<Rightarrow> [])"

text \<open>A kernel message on a given line, for the examples.\<close>

definition kernel_finding :: "int \<Rightarrow> TextlintKernelMessage" where
  "kernel_finding l =
     \<lparr>line = l, column = 1, endLine = None, endColumn = None, message = ''m'',
      ruleId = Some ''r'', severity = 1, suggested_fix = None\<rparr>"

text \<open>
  Line \<open>i\<close> differs between two texts, as the scanning loop tests it; a list of regions is
  separated when each region starts strictly after the one before it ends; a region is a
  padded change when it starts \<open>contextLines\<close> lines before a differing line (or at line 0)
  and ends \<open>contextLines\<close> lines after a differing line, both below \<open>bound\<close>.
\<close>

definition differs :: "string list \<Rightarrow> string list \<Rightarrow> nat \<Rightarrow> bool" where
  "differs oldLines newLines i = (line_at oldLines i \<noteq> line_at newLines i)"

fun separated :: "Region list \<Rightarrow> bool" where
  "separated [] = True"
| "separated [r] = True"
| "separated (r # r' # rs) = (region_end r < region_start r' \<and> separated (r' # rs))"

definition padded_change :: "string list \<Rightarrow> string list \<Rightarrow> nat \<Rightarrow> nat \<Rightarrow> Region \<Rightarrow> bool" where
  "padded_change oldLines newLines contextLines bound r =
     (\<exists>d1 < bound. \<exists>d2 < bound. d1 \<le> d2
        \<and> differs oldLines newLines d1 \<and> differs oldLines newLines d2
        \<and> region_start r = max 0 (int d1 - int contextLines)
        \<and> region_end r = int d2 + int contextLines)"

text \<open>The invariant of the scanning loop before it reads line \<open>i\<close>.\<close>

definition scan_inv :: "string list \<Rightarrow> string list \<Rightarrow> nat \<Rightarrow> nat \<Rightarrow> Region option \<times> Region list \<Rightarrow> bool" where
  "scan_inv ol nl n i s =
     ((\<forall>r \<in> set (snd s). padded_change ol nl n i r)
      \<and> (\<forall>r. fst s = Some r \<longrightarrow> padded_change ol nl n i r))"

text \<open>
  Example texts: twelve lines, the first and the last of which change, or lines 0 and 3
  (a majority with their context); forty lines, of which lines 0 and 20 change; an analyzer that reports every line reading \<open>b\<close>; the lines
  of the findings a call resolves with; a plugin that has not run yet; an analysis result
  with one finding.
\<close>

definition old_example :: string where
  "old_example = join_lines (replicate 12 ''a'')"

definition new_example :: string where
  "new_example = join_lines (''b'' # replicate 10 ''a'' @ [''b''])"

definition majority_new :: string where
  "majority_new = join_lines (''b'' # ''a'' # ''a'' # ''b'' # replicate 8 ''a'')"

definition forty_lines_old :: string where
  "forty_lines_old = join_lines (replicate 40 ''a'')"

definition forty_lines_new :: string where
  "forty_lines_new = join_lines (''b'' # replicate 19 ''a'' @ ''b'' # replicate 19 ''a'')"

definition flag_b :: "string \<Rightarrow> TextlintMessage list promise" where
  "flag_b text =
     Settles 1 (Resolve (map (\<lambda>i. finding (int i + 1) None)
       (filter (\<lambda>i. split_lines text ! i = ''b'') [0 ..< length (split_lines text)])))"

definition resolved_lines :: "TextlintMessage list promise \<Rightarrow> int list" where
  "resolved_lines p = (case p of Settles t (Resolve msgs) \<Rightarrow> map line msgs | _ \<Rightarrow> [])"

definition fresh_plugin :: PluginState where
  "fresh_plugin =
     \<lparr>lastProcessedFile = None, lastContentHash = None,
      resultCache = \<lparr>cache = Map.empty, ttl = 600000\<rparr>,
      highlights = [], view = None, notices = [],
      cacheHits = 0, cacheMisses = 0, totalRequests = 0\<rparr>"

definition one_finding :: "TextlintResult option" where
  "one_finding = Some \<lparr>kernel_messages = Some [kernel_finding 1], kernel_filePath = None\<rparr>"

section \<open>Properties of the differential processor\<close>

lemma scan_line_same: "scan_line ls ls n i (None, []) = (None, [])"
  by (simp add: scan_line_def)

lemma fold_scan_line_same: "fold (scan_line ls ls n) is (None, []) = (None, [])"
  by (induction "is") (simp_all add: scan_line_same)

lemma findChangedRegions_same: "findChangedRegions text text n = []"
  by (simp add: findChangedRegions_def scan_lines_def fold_scan_line_same)

text \<open>
  C5. When the text handed to \<^verbatim>\<open>processChangedRegionsOnly\<close> is the text of the cached
  snapshot, the call resolves with the cached findings, hands nothing to the analyzer and
  leaves the stored snapshots untouched.
\<close>

theorem processChangedRegionsOnly_same_text:
  assumes "store filePath = Some cached" and "content cached = newContent"
  shows "processChangedRegionsOnly store now filePath newContent lintFunction =
           \<lparr>returned = Settles 0 (Resolve (messages cached)),
            previousResults = store, analyzed = []\<rparr>"
  using assms by (simp add: processChangedRegionsOnly_def findChangedRegions_same)

theorem processChangedRegionsOnly_same_text_witness:
  "processChangedRegionsOnly
      [''a.md'' \<mapsto> \<lparr>content = ''x'', messages = [finding 1 None], snapshot_timestamp = 0\<rparr>]
      7 ''a.md'' ''x'' (\<lambda>_. Never) =
    \<lparr>returned = Settles 0 (Resolve [finding 1 None]),
     previousResults =
       [''a.md'' \<mapsto> \<lparr>content = ''x'', messages = [finding 1 None], snapshot_timestamp = 0\<rparr>],
     analyzed = []\<rparr>"
  using processChangedRegionsOnly_same_text
    [of "[''a.md'' \<mapsto> \<lparr>content = ''x'', messages = [finding 1 None],
                          snapshot_timestamp = 0\<rparr>]"
        "''a.md''" "\<lparr>content = ''x'', messages = [finding 1 None], snapshot_timestamp = 0\<rparr>"
        "''x''" 7 "\<lambda>_. Never"]
  by simp

lemma fullAnalysis_returned:
  "returned (fullAnalysis store now filePath newContent lintFunction) = lintFunction newContent"
  by (simp add: fullAnalysis_def split: promise.splits settlement.splits)

lemma fullAnalysis_analyzed:
  "analyzed (fullAnalysis store now filePath newContent lintFunction) = [newContent]"
  by (simp add: fullAnalysis_def split: promise.splits settlement.splits)

lemma fullAnalysis_stored:
  "lintFunction newContent = Settles t (Resolve msgs) \<Longrightarrow>
   previousResults (fullAnalysis store now filePath newContent lintFunction) =
     store(filePath \<mapsto> \<lparr>content = newContent, messages = msgs, snapshot_timestamp = now\<rparr>)"
  by (simp add: fullAnalysis_def)

text \<open>
  Hence feeding the same text twice: whatever the first call did, when it resolved, a
  second call on the same text resolves with the same findings and calls no analyzer.
\<close>

lemma same_text_noop:
  assumes "store filePath = Some cached" and "content cached = newContent"
  shows "processChangedRegionsOnly store now filePath newContent lintFunction =
           \<lparr>returned = Settles 0 (Resolve (messages cached)),
            previousResults = store, analyzed = []\<rparr>"
  using assms by (simp add: processChangedRegionsOnly_def findChangedRegions_same)

lemma fullAnalysis_resolved:
  assumes "returned (fullAnalysis store now filePath newContent lintFunction) = Settles t (Resolve msgs)"
  shows "previousResults (fullAnalysis store now filePath newContent lintFunction) filePath =
           Some \<lparr>content = newContent, messages = msgs, snapshot_timestamp = now\<rparr>"
  using assms by (auto simp: fullAnalysis_def split: promise.splits settlement.splits)

lemma processChangedRegionsOnly_twice:
  assumes "returned (processChangedRegionsOnly store now filePath newContent lintFunction) =
             Settles t (Resolve msgs)"
  shows "processChangedRegionsOnly
           (previousResults (processChangedRegionsOnly store now filePath newContent lintFunction))
           now' filePath newContent lintFunction' =
         \<lparr>returned = Settles 0 (Resolve msgs),
          previousResults =
            previousResults (processChangedRegionsOnly store now filePath newContent lintFunction),
          analyzed = []\<rparr>"
proof (cases "store filePath")
  case None
  then have run: "processChangedRegionsOnly store now filePath newContent lintFunction =
                    fullAnalysis store now filePath newContent lintFunction"
    by (simp add: processChangedRegionsOnly_def)
  show ?thesis
    using fullAnalysis_resolved [of store now filePath newContent lintFunction t msgs] assms
      same_text_noop [of "previousResults (fullAnalysis store now filePath newContent lintFunction)"
        filePath "\<lparr>content = newContent, messages = msgs, snapshot_timestamp = now\<rparr>" newContent
        now' lintFunction']
    unfolding run by simp
next
  case (Some cached)
  let ?regions = "findChangedRegions (content cached) newContent 5"
  consider (same) "?regions = []"
    | (majority) "?regions \<noteq> []"
        "real_of_int (changedLines ?regions) / real (length (split_lines newContent)) > 0.5"
    | (minority) "?regions \<noteq> []"
        "\<not> real_of_int (changedLines ?regions) / real (length (split_lines newContent)) > 0.5"
    by blast
  then show ?thesis
  proof cases
    case same
    then have run: "processChangedRegionsOnly store now filePath newContent lintFunction =
        \<lparr>returned = Settles 0 (Resolve (messages cached)), previousResults = store, analyzed = []\<rparr>"
      using Some by (simp add: processChangedRegionsOnly_def)
    then have "msgs = messages cached" using assms by simp
    moreover have "processChangedRegionsOnly store now' filePath newContent lintFunction' =
        \<lparr>returned = Settles 0 (Resolve (messages cached)), previousResults = store, analyzed = []\<rparr>"
      using Some same by (simp add: processChangedRegionsOnly_def)
    ultimately show ?thesis unfolding run by simp
  next
    case majority
    then have run: "processChangedRegionsOnly store now filePath newContent lintFunction =
                    fullAnalysis store now filePath newContent lintFunction"
      using Some by (simp add: processChangedRegionsOnly_def Let_def)
    show ?thesis
      using fullAnalysis_resolved [of store now filePath newContent lintFunction t msgs] assms
        same_text_noop [of "previousResults (fullAnalysis store now filePath newContent lintFunction)"
          filePath "\<lparr>content = newContent, messages = msgs, snapshot_timestamp = now\<rparr>" newContent
          now' lintFunction']
      unfolding run by simp
  next
    case minority
    let ?extracted = "extractRegionContent newContent ?regions"
    have ret: "returned (processChangedRegionsOnly store now filePath newContent lintFunction) =
        (case lintFunction ?extracted of
           Settles t (Resolve regionMessages) \<Rightarrow>
             Settles t (Resolve (mergeResults (messages cached)
                (adjustLineNumbers regionMessages ?regions) ?regions))
         | p \<Rightarrow> p)"
      using Some minority
      by (simp add: processChangedRegionsOnly_def Let_def split: promise.splits settlement.splits)
    have st: "previousResults (processChangedRegionsOnly store now filePath newContent lintFunction) filePath =
        (case lintFunction ?extracted of
           Settles t (Resolve regionMessages) \<Rightarrow>
             Some \<lparr>content = newContent,
                   messages = mergeResults (messages cached)
                     (adjustLineNumbers regionMessages ?regions) ?regions,
                   snapshot_timestamp = now\<rparr>
         | p \<Rightarrow> store filePath)"
      using Some minority
      by (simp add: processChangedRegionsOnly_def Let_def split: promise.splits settlement.splits)
    obtain regionMessages where rm: "lintFunction ?extracted = Settles t (Resolve regionMessages)"
      "msgs = mergeResults (messages cached) (adjustLineNumbers regionMessages ?regions) ?regions"
      using assms ret by (auto split: promise.splits settlement.splits)
    have "previousResults (processChangedRegionsOnly store now filePath newContent lintFunction) filePath =
            Some \<lparr>content = newContent, messages = msgs, snapshot_timestamp = now\<rparr>"
      using st rm by simp
    then show ?thesis
      using same_text_noop [of "previousResults (processChangedRegionsOnly store now filePath newContent lintFunction)"
          filePath "\<lparr>content = newContent, messages = msgs, snapshot_timestamp = now\<rparr>" newContent
          now' lintFunction']
      by simp
  qed
qed

lemma changedLines_Nil: "changedLines [] = 0"
  by (simp add: changedLines_def)

lemma majority_is_full:
  assumes "store filePath = Some cached"
    and "real_of_int (changedLines (findChangedRegions (content cached) newContent 5))
           / real (length (split_lines newContent)) > 0.5"
  shows "processChangedRegionsOnly store now filePath newContent lintFunction =
           fullAnalysis store now filePath newContent lintFunction"
proof -
  have "findChangedRegions (content cached) newContent 5 \<noteq> []"
    using assms(2) by (auto simp: changedLines_Nil)
  then show ?thesis
    using assms by (simp add: processChangedRegionsOnly_def Let_def)
qed

text \<open>
  C4. With a cached snapshot, when the lines of the changed regions divided by the lines of
  the new text exceed \<open>0.5\<close>, the analyzer is called exactly once, on the complete new text,
  and the call returns what the analyzer returns; when the analyzer resolves with findings,
  the stored snapshot of the file becomes the new text with those findings (and stays as it
  was when the analyzer rejects or never settles).
\<close>

theorem processChangedRegionsOnly_majority:
  assumes "store filePath = Some cached"
    and "real_of_int (changedLines (findChangedRegions (content cached) newContent 5))
           / real (length (split_lines newContent)) > 0.5"
  shows "analyzed (processChangedRegionsOnly store now filePath newContent lintFunction) =
           [newContent]
       \<and> returned (processChangedRegionsOnly store now filePath newContent lintFunction) =
           lintFunction newContent
       \<and> previousResults (processChangedRegionsOnly store now filePath newContent lintFunction) =
           (case lintFunction newContent of
              Settles t (Resolve msgs) \<Rightarrow>
                store(filePath \<mapsto>
                  \<lparr>content = newContent, messages = msgs, snapshot_timestamp = now\<rparr>)
            | _ \<Rightarrow> store)"
  using majority_is_full [of store filePath cached newContent now lintFunction] assms
  by (simp add: fullAnalysis_returned fullAnalysis_analyzed)
     (simp add: fullAnalysis_def split: promise.splits settlement.splits)

text \<open>
  An instance: twelve lines of which lines 0 and 3 change give the one region of lines 0
  to 8, nine lines of twelve. The analyzer is given the twelve lines, not the nine
  extracted ones, and the cached finding on line 11, outside the region, is not carried
  over: the stored findings are those of the full analysis.
\<close>

lemma flag_b_majority_new:
  "flag_b majority_new = Settles 1 (Resolve [finding 1 None, finding 4 None])"
  by code_simp

theorem processChangedRegionsOnly_majority_witness:
  "findChangedRegions old_example majority_new 5 = [\<lparr>region_start = 0, region_end = 8\<rparr>]
   \<and> extractRegionContent majority_new (findChangedRegions old_example majority_new 5)
       \<noteq> majority_new
   \<and> analyzed (processChangedRegionsOnly
      [''a.md'' \<mapsto> \<lparr>content = old_example, messages = [finding 11 None],
                       snapshot_timestamp = 0\<rparr>]
      7 ''a.md'' majority_new flag_b) = [majority_new]
   \<and> returned (processChangedRegionsOnly
      [''a.md'' \<mapsto> \<lparr>content = old_example, messages = [finding 11 None],
                       snapshot_timestamp = 0\<rparr>]
      7 ''a.md'' majority_new flag_b) =
       Settles 1 (Resolve [finding 1 None, finding 4 None])
   \<and> previousResults (processChangedRegionsOnly
      [''a.md'' \<mapsto> \<lparr>content = old_example, messages = [finding 11 None],
                       snapshot_timestamp = 0\<rparr>]
      7 ''a.md'' majority_new flag_b) ''a.md'' =
       Some \<lparr>content = majority_new, messages = [finding 1 None, finding 4 None],
             snapshot_timestamp = 7\<rparr>"
proof -
  have regions: "findChangedRegions old_example majority_new 5 =
                   [\<lparr>region_start = 0, region_end = 8\<rparr>]"
    by code_simp
  have extracted: "extractRegionContent majority_new
                     (findChangedRegions old_example majority_new 5) \<noteq> majority_new"
    by code_simp
  have ratio: "real_of_int (changedLines (findChangedRegions
                  (content \<lparr>content = old_example, messages = [finding 11 None],
                            snapshot_timestamp = 0\<rparr>) majority_new 5))
                / real (length (split_lines majority_new)) > 0.5"
    by code_simp
  show ?thesis
    using processChangedRegionsOnly_majority
      [of "[''a.md'' \<mapsto> \<lparr>content = old_example, messages = [finding 11 None],
                             snapshot_timestamp = 0\<rparr>]"
          "''a.md''"
          "\<lparr>content = old_example, messages = [finding 11 None], snapshot_timestamp = 0\<rparr>"
          majority_new 7 flag_b]
      ratio regions extracted
    by (simp add: flag_b_majority_new)
qed

text \<open>
  C9. In \<^verbatim>\<open>adjustLineNumbers\<close>, a finding whose end line is defined (and, lines being 1-based,
  not \<open>0\<close>, which JavaScript takes for absent) comes back with its end line equal to its
  adjusted line: the span of a multi-line finding is lost.
\<close>

theorem adjustLineNumbers_endLine:
  assumes "i < length msgs" and "endLine (msgs ! i) = Some e" and "e \<noteq> 0"
  shows "line (adjustLineNumbers msgs regions ! i) = adjustedLine (line (msgs ! i)) regions
       \<and> endLine (adjustLineNumbers msgs regions ! i) =
           Some (line (adjustLineNumbers msgs regions ! i))"
  using assms by (simp add: adjustLineNumbers_def truthy_number_def)

theorem adjustLineNumbers_endLine_witness:
  "line (adjustLineNumbers [finding 3 (Some 7)] [\<lparr>region_start = 45, region_end = 55\<rparr>] ! 0) = 48
   \<and> endLine (adjustLineNumbers [finding 3 (Some 7)] [\<lparr>region_start = 45, region_end = 55\<rparr>] ! 0)
       = Some 48"
  using adjustLineNumbers_endLine
    [of 0 "[finding 3 (Some 7)]" 7 "[\<lparr>region_start = 45, region_end = 55\<rparr>]"]
  by (simp add: finding_def)

lemma separated_snoc:
  "separated (rs @ [r]) = (separated rs \<and> (rs \<noteq> [] \<longrightarrow> region_end (last rs) < region_start r))"
  by (induction rs rule: separated.induct) auto

lemma merge_loop_separated:
  "merged \<noteq> [] \<Longrightarrow> separated merged \<Longrightarrow> separated (merge_loop merged rest)"
proof (induction rest arbitrary: merged)
  case Nil
  then show ?case by simp
next
  case (Cons current rest)
  let ?last' = "(last merged)\<lparr>region_end := max (region_end (last merged)) (region_end current)\<rparr>"
  have "separated (butlast merged @ [last merged])"
    using Cons.prems by simp
  then have "separated (butlast merged @ [?last'])"
    by (simp add: separated_snoc)
  moreover have "separated (merged @ [current])" if "\<not> region_start current \<le> region_end (last merged)"
    using that Cons.prems by (simp add: separated_snoc)
  ultimately show ?case
    using Cons.IH by simp
qed

lemma mergeOverlappingRegions_separated: "separated (mergeOverlappingRegions regions)"
  by (cases regions) (simp_all add: merge_loop_separated)

lemma padded_change_merge:
  assumes "padded_change ol nl n b l" and "padded_change ol nl n b c"
  shows "padded_change ol nl n b (l\<lparr>region_end := max (region_end l) (region_end c)\<rparr>)"
proof (cases "region_end l \<le> region_end c")
  case False
  then show ?thesis using assms(1) by (simp add: max_def)
next
  case True
  from assms(1) obtain d1 d2 where l: "d1 < b" "d2 < b" "d1 \<le> d2" "differs ol nl d1"
    "region_start l = max 0 (int d1 - int n)" "region_end l = int d2 + int n"
    by (auto simp: padded_change_def)
  from assms(2) obtain e1 e2 where c: "e2 < b" "differs ol nl e2" "region_end c = int e2 + int n"
    by (auto simp: padded_change_def)
  have "d1 \<le> e2" using True l c by simp
  then show ?thesis
    using True l c unfolding padded_change_def
    by (intro exI[of _ d1] conjI exI[of _ e2]) (simp_all add: max_def)
qed

lemma merge_loop_padded:
  "merged \<noteq> [] \<Longrightarrow> \<forall>r \<in> set merged. padded_change ol nl n b r \<Longrightarrow>
   \<forall>r \<in> set rest. padded_change ol nl n b r \<Longrightarrow>
   \<forall>r \<in> set (merge_loop merged rest). padded_change ol nl n b r"
proof (induction rest arbitrary: merged)
  case Nil
  then show ?case by simp
next
  case (Cons current rest)
  let ?last' = "(last merged)\<lparr>region_end := max (region_end (last merged)) (region_end current)\<rparr>"
  have "padded_change ol nl n b (last merged)"
    using Cons.prems(1,2) by simp
  then have "padded_change ol nl n b ?last'"
    using Cons.prems(3) by (simp add: padded_change_merge)
  then have a: "\<forall>r \<in> set (butlast merged @ [?last']). padded_change ol nl n b r"
    using Cons.prems(2) by (auto dest: in_set_butlastD)
  have b: "\<forall>r \<in> set (merged @ [current]). padded_change ol nl n b r"
    using Cons.prems(2,3) by auto
  have rest: "\<forall>r \<in> set rest. padded_change ol nl n b r"
    using Cons.prems(3) by simp
  show ?case
  proof (cases "region_start current \<le> region_end (last merged)")
    case True
    have "\<forall>r \<in> set (merge_loop (butlast merged @ [?last']) rest). padded_change ol nl n b r"
      by (rule Cons.IH [OF _ a rest]) simp
    then show ?thesis using True by simp
  next
    case False
    have "\<forall>r \<in> set (merge_loop (merged @ [current]) rest). padded_change ol nl n b r"
      by (rule Cons.IH [OF _ b rest]) simp
    then show ?thesis using False by simp
  qed
qed

lemma mergeOverlappingRegions_padded:
  assumes "\<forall>r \<in> set regions. padded_change ol nl n b r"
  shows "\<forall>r \<in> set (mergeOverlappingRegions regions). padded_change ol nl n b r"
proof (cases regions)
  case Nil
  then show ?thesis by simp
next
  case (Cons r rest)
  have "\<forall>r \<in> set (merge_loop [r] rest). padded_change ol nl n b r"
    using assms Cons by (intro merge_loop_padded) simp_all
  then show ?thesis using Cons by simp
qed

lemma padded_change_mono:
  assumes "padded_change ol nl n b r" and "b \<le> b'"
  shows "padded_change ol nl n b' r"
proof -
  from assms(1) obtain d1 d2 where "d1 < b" "d2 < b" "d1 \<le> d2" "differs ol nl d1"
    "differs ol nl d2" "region_start r = max 0 (int d1 - int n)"
    "region_end r = int d2 + int n"
    unfolding padded_change_def by blast
  then show ?thesis
    using assms(2) unfolding padded_change_def
    by (intro exI[of _ d1] conjI exI[of _ d2]) simp_all
qed

lemma padded_change_extend:
  assumes "padded_change ol nl n i r" and "differs ol nl i"
  shows "padded_change ol nl n (Suc i) (r\<lparr>region_end := int i + int n\<rparr>)"
proof -
  from assms(1) obtain d1 where "d1 < i" "differs ol nl d1"
    "region_start r = max 0 (int d1 - int n)"
    by (auto simp: padded_change_def)
  then show ?thesis
    using assms(2) unfolding padded_change_def
    by (intro exI[of _ d1] conjI exI[of _ i]) simp_all
qed

lemma padded_change_new:
  assumes "differs ol nl i"
  shows "padded_change ol nl n (Suc i)
           \<lparr>region_start = max 0 (int i - int n), region_end = int i + int n\<rparr>"
  using assms unfolding padded_change_def
  by (intro exI[of _ i] conjI) simp_all

lemma scan_line_inv:
  assumes "scan_inv ol nl n i s"
  shows "scan_inv ol nl n (Suc i) (scan_line ol nl n i s)"
proof -
  obtain cur acc where s: "s = (cur, acc)" by (cases s)
  have acc: "\<forall>r \<in> set acc. padded_change ol nl n (Suc i) r"
    using assms s by (auto simp: scan_inv_def intro: padded_change_mono)
  have cur: "cur = Some r \<Longrightarrow> padded_change ol nl n (Suc i) r" for r
    using assms s by (auto simp: scan_inv_def intro: padded_change_mono)
  show ?thesis
  proof (cases "line_at ol i \<noteq> line_at nl i")
    case True
    then have d: "differs ol nl i" by (simp add: differs_def)
    show ?thesis
    proof (cases cur)
      case None
      then show ?thesis
        using True s acc padded_change_new [OF d]
        by (simp add: scan_line_def scan_inv_def)
    next
      case (Some r)
      then have "padded_change ol nl n i r"
        using assms s by (simp add: scan_inv_def)
      then show ?thesis
        using True s Some acc padded_change_extend [OF _ d]
        by (simp add: scan_line_def scan_inv_def)
    qed
  next
    case False
    then show ?thesis
      using s acc cur by (cases cur) (auto simp: scan_line_def scan_inv_def)
  qed
qed

lemma fold_scan_line_inv:
  "scan_inv ol nl n i (fold (scan_line ol nl n) [0..<i] (None, []))"
proof (induction i)
  case 0
  then show ?case by (simp add: scan_inv_def)
next
  case (Suc i)
  then show ?case by (simp add: scan_line_inv)
qed

lemma scan_lines_padded:
  "\<forall>r \<in> set (scan_lines ol nl n). padded_change ol nl n (max (length ol) (length nl)) r"
proof -
  obtain cur acc where f:
    "fold (scan_line ol nl n) [0..<max (length ol) (length nl)] (None, []) = (cur, acc)"
    by (cases "fold (scan_line ol nl n) [0..<max (length ol) (length nl)] (None, [])")
  have "scan_inv ol nl n (max (length ol) (length nl)) (cur, acc)"
    using fold_scan_line_inv [of ol nl n "max (length ol) (length nl)"] f by simp
  then show ?thesis
    using f by (cases cur) (auto simp: scan_lines_def scan_inv_def)
qed

text \<open>
  C2, as the code has it. The regions \<^verbatim>\<open>findChangedRegions\<close> returns are separated: each
  starts strictly after the one before it ends, so no two overlap. Each starts \<open>N\<close> lines
  before a differing line, or at line 0 when that would be negative, and ends \<open>N\<close> lines
  after a differing line that is not before the first, so it covers a differing line with
  its context.
\<close>

theorem findChangedRegions_regions:
  "separated (findChangedRegions oldContent newContent contextLines)
   \<and> (\<forall>r \<in> set (findChangedRegions oldContent newContent contextLines).
        \<exists>d1 d2. d1 \<le> d2
          \<and> d2 < max (length (split_lines oldContent)) (length (split_lines newContent))
          \<and> differs (split_lines oldContent) (split_lines newContent) d1
          \<and> differs (split_lines oldContent) (split_lines newContent) d2
          \<and> region_start r = max 0 (int d1 - int contextLines)
          \<and> region_end r = int d2 + int contextLines)"
proof (intro conjI ballI)
  show "separated (findChangedRegions oldContent newContent contextLines)"
    by (simp add: findChangedRegions_def mergeOverlappingRegions_separated)
next
  fix r
  assume r: "r \<in> set (findChangedRegions oldContent newContent contextLines)"
  have "\<forall>r \<in> set (findChangedRegions oldContent newContent contextLines).
          padded_change (split_lines oldContent) (split_lines newContent) contextLines
            (max (length (split_lines oldContent)) (length (split_lines newContent))) r"
    unfolding findChangedRegions_def
    by (rule mergeOverlappingRegions_padded) (rule scan_lines_padded)
  with r have "padded_change (split_lines oldContent) (split_lines newContent) contextLines
            (max (length (split_lines oldContent)) (length (split_lines newContent))) r"
    by blast
  then show "\<exists>d1 d2. d1 \<le> d2
          \<and> d2 < max (length (split_lines oldContent)) (length (split_lines newContent))
          \<and> differs (split_lines oldContent) (split_lines newContent) d1
          \<and> differs (split_lines oldContent) (split_lines newContent) d2
          \<and> region_start r = max 0 (int d1 - int contextLines)
          \<and> region_end r = int d2 + int contextLines"
    unfolding padded_change_def by blast
qed

lemma findChangedRegions_example:
  "findChangedRegions old_example new_example 5 =
     [\<lparr>region_start = 0, region_end = 5\<rparr>, \<lparr>region_start = 6, region_end = 16\<rparr>]"
  by code_simp

theorem findChangedRegions_regions_witness:
  "separated [\<lparr>region_start = 0, region_end = 5\<rparr>, \<lparr>region_start = 6, region_end = 16\<rparr>]
   \<and> (\<exists>d1 d2. d1 \<le> d2
          \<and> d2 < max (length (split_lines old_example)) (length (split_lines new_example))
          \<and> differs (split_lines old_example) (split_lines new_example) d1
          \<and> differs (split_lines old_example) (split_lines new_example) d2
          \<and> region_start \<lparr>region_start = 0, region_end = 5\<rparr> = max 0 (int d1 - int 5)
          \<and> region_end \<lparr>region_start = 0, region_end = 5\<rparr> = int d2 + int 5)
   \<and> (\<exists>d1 d2. d1 \<le> d2
          \<and> d2 < max (length (split_lines old_example)) (length (split_lines new_example))
          \<and> differs (split_lines old_example) (split_lines new_example) d1
          \<and> differs (split_lines old_example) (split_lines new_example) d2
          \<and> region_start \<lparr>region_start = 6, region_end = 16\<rparr> = max 0 (int d1 - int 5)
          \<and> region_end \<lparr>region_start = 6, region_end = 16\<rparr> = int d2 + int 5)"
  using findChangedRegions_regions [of old_example new_example 5]
  unfolding findChangedRegions_example by simp

text \<open>
  C2 as stated fails: on twelve lines of which the first and the last change, with a margin
  of 5, the regions returned are lines 0 to 5 and lines 6 to 16. They are adjacent and not
  merged (only regions that share a line are), and the second one ends past the last line,
  which is line 11.
\<close>

theorem findChangedRegions_adjacent_counterexample:
  "length (split_lines new_example) = 12
   \<and> findChangedRegions old_example new_example 5 =
       [\<lparr>region_start = 0, region_end = 5\<rparr>, \<lparr>region_start = 6, region_end = 16\<rparr>]"
  by code_simp

text \<open>
  C1. On forty lines of which lines 0 and 20 change, two regions cover a minority of the
  lines (lines 0 to 5 and 15 to 25). An analyzer that reports every line reading \<open>b\<close>
  reports lines 1 and 21 of the new text, and lines 1 and 12 of the extracted text. The
  differential run returns lines 1 and 12: the finding of the second region is not moved
  to its line in the new text.
\<close>

theorem second_region_findings_misplaced:
  "findChangedRegions forty_lines_old forty_lines_new 5 =
     [\<lparr>region_start = 0, region_end = 5\<rparr>, \<lparr>region_start = 15, region_end = 25\<rparr>]
   \<and> \<not> real_of_int (changedLines (findChangedRegions forty_lines_old forty_lines_new 5))
         / real (length (split_lines forty_lines_new)) > 0.5
   \<and> resolved_lines (flag_b forty_lines_new) = [1, 21]
   \<and> resolved_lines (flag_b (extractRegionContent forty_lines_new
         (findChangedRegions forty_lines_old forty_lines_new 5))) = [1, 12]
   \<and> resolved_lines (returned (processChangedRegionsOnly
         [''a.md'' \<mapsto> \<lparr>content = forty_lines_old, messages = [], snapshot_timestamp = 0\<rparr>]
         7 ''a.md'' forty_lines_new flag_b)) = [1, 12]"
  by code_simp

text \<open>
  With a single region the adjustment is the offset of that region, and the minority path
  returns the carried-over and the adjusted findings, sorted by line.
\<close>

lemma adjustedLine_single:
  "l \<le> region_end r - region_start r + 1 \<Longrightarrow> adjustedLine l [r] = region_start r + l"
  by simp

lemma processChangedRegionsOnly_minority:
  assumes "store filePath = Some cached"
    and "regions = findChangedRegions (content cached) newContent 5"
    and "regions \<noteq> []"
    and "\<not> real_of_int (changedLines regions) / real (length (split_lines newContent)) > 0.5"
    and "lintFunction (extractRegionContent newContent regions) = Settles t (Resolve regionMessages)"
  shows "processChangedRegionsOnly store now filePath newContent lintFunction =
     \<lparr>returned = Settles t (Resolve
         (sort_key line (filter (\<lambda>m. \<not> inChangedRegion regions m) (messages cached)
                         @ adjustLineNumbers regionMessages regions))),
      previousResults = store(filePath \<mapsto>
         \<lparr>content = newContent,
          messages = sort_key line (filter (\<lambda>m. \<not> inChangedRegion regions m) (messages cached)
                         @ adjustLineNumbers regionMessages regions),
          snapshot_timestamp = now\<rparr>),
      analyzed = [extractRegionContent newContent regions]\<rparr>"
  using assms by (simp add: processChangedRegionsOnly_def Let_def mergeResults_def)

section \<open>Properties of the cache\<close>




section \<open>Properties of the chunked runner\<close>

lemma run_chunks_all_fail:
  "\<forall>chunk \<in> set chunkData. chunk_fails (processFunction (chunk_content chunk)) chunkTimeout \<Longrightarrow>
   \<exists>t. run_chunks processFunction chunkTimeout chunkData = Settles t (Resolve [])"
proof (induction chunkData)
  case Nil
  then show ?case by simp
next
  case (Cons chunk chunks)
  then obtain t' where
    rest: "run_chunks processFunction chunkTimeout chunks = Settles t' (Resolve [])"
    by auto
  from Cons.prems have "chunk_fails (processFunction (chunk_content chunk)) chunkTimeout"
    by simp
  then obtain t e where
    "processWithTimeout (processFunction (chunk_content chunk)) chunkTimeout =
       Settles t (Reject e)"
    by (auto simp: chunk_fails_def split: promise.splits settlement.splits)
  with rest show ?case by simp
qed

lemma split_lines_newlines: "split_lines (replicate k (CHR 0x0A)) = replicate (Suc k) []"
  by (induction k) simp_all

text \<open>
  C10. In a chunked run (at least 1000 lines, a strategy with a chunk size), when every
  chunk call fails, the run resolves, with \<^verbatim>\<open>{ messages: [] }\<close>.
\<close>

theorem all_chunks_fail_resolves_empty:
  assumes "length (split_lines text) \<ge> 1000"
    and "chunkSize strategy = Some n" and "n > 0"
    and "\<forall>chunk \<in> set (chunk_lines n (split_lines text)).
           chunk_fails (processFunction chunk)
             (processingTimeout strategy / of_nat (length (chunk_lines n (split_lines text))))"
  shows "\<exists>t. processWithKuromojiOptimization text processFunction strategy =
              Settles t (Resolve (Some \<lparr>kernel_messages = Some [], kernel_filePath = None\<rparr>))"
proof -
  let ?chunks = "chunk_lines n (split_lines text)"
  let ?chunkData = "map (\<lambda>chunk. \<lparr>chunk_content = chunk,
                      chunk_lines_count = length (split_lines chunk)\<rparr>) ?chunks"
  let ?timeout = "processingTimeout strategy / of_nat (length ?chunkData)"
  have "\<forall>chunk \<in> set ?chunkData. chunk_fails (processFunction (chunk_content chunk)) ?timeout"
    using assms(4) by simp
  then obtain t where "run_chunks processFunction ?timeout ?chunkData = Settles t (Resolve [])"
    using run_chunks_all_fail by blast
  then show ?thesis
    using assms(1-3)
    by (simp add: processWithKuromojiOptimization_def createProcessingChunks_def
        mergeChunkResults_def Let_def)
qed

theorem all_chunks_fail_resolves_empty_witness:
  "\<exists>t. processWithKuromojiOptimization (replicate 999 (CHR 0x0A)) (\<lambda>_. Never)
          (STRATEGIES ! 1) =
        Settles t (Resolve (Some \<lparr>kernel_messages = Some [], kernel_filePath = None\<rparr>))"
  using all_chunks_fail_resolves_empty
    [of "replicate 999 (CHR 0x0A)" "STRATEGIES ! 1" 1000 "\<lambda>_. Never"]
  by (simp add: split_lines_newlines STRATEGIES_def chunk_fails_def processWithTimeout_def)

text \<open>A text of fewer than 1000 lines goes to the analyzer directly, whatever the strategy.\<close>

lemma small_document_direct:
  "length (split_lines text) < 1000 \<Longrightarrow>
   processWithKuromojiOptimization text processFunction strategy = processFunction text"
  by (simp add: processWithKuromojiOptimization_def)

text \<open>
  C8. A text of fewer than 1000 lines goes to the analyzer as it is, once, with no timer:
  on the one-line text \<open>a\<close> with an analyzer that never settles, the run never settles,
  where a call raced against the timeout of the selected strategy (15 seconds) would reject.
\<close>

theorem small_document_has_no_timeout:
  "processWithKuromojiOptimization ''a'' (\<lambda>_. Never) (getOptimalStrategy ''a'') = Never
   \<and> processingTimeout (getOptimalStrategy ''a'') = 15000
   \<and> processWithTimeout ((\<lambda>_. Never) ''a'' :: TextlintResult option promise)
        (processingTimeout (getOptimalStrategy ''a'')) =
       Settles 15000 (Reject (TimeoutError 15000))"
  by (simp add: processWithKuromojiOptimization_def getOptimalStrategy_def STRATEGIES_def
      processWithTimeout_def numeral_eq_enat)

lemma chunk_succeeds_call:
  assumes "chunk_succeeds call timeout"
  shows "\<exists>t. processWithTimeout call timeout = Settles t (Resolve (resolved_value call))"
  using assms
  by (auto simp: chunk_succeeds_def processWithTimeout_def resolved_value_def
      split: promise.splits settlement.splits if_splits)

lemma run_chunks_all_succeed:
  "\<forall>chunk \<in> set chunkData. chunk_succeeds (processFunction (chunk_content chunk)) chunkTimeout \<Longrightarrow>
   \<exists>t. run_chunks processFunction chunkTimeout chunkData =
        Settles t (Resolve (map (\<lambda>chunk. \<lparr>result = resolved_value (processFunction (chunk_content chunk)),
                                          lines = chunk_lines_count chunk\<rparr>) chunkData))"
proof (induction chunkData)
  case Nil
  then show ?case by simp
next
  case (Cons chunk chunks)
  then obtain t' where rest:
    "run_chunks processFunction chunkTimeout chunks =
       Settles t' (Resolve (map (\<lambda>chunk. \<lparr>result = resolved_value (processFunction (chunk_content chunk)),
                                          lines = chunk_lines_count chunk\<rparr>) chunks))"
    by auto
  from Cons.prems obtain t where
    "processWithTimeout (processFunction (chunk_content chunk)) chunkTimeout =
       Settles t (Resolve (resolved_value (processFunction (chunk_content chunk))))"
    using chunk_succeeds_call by fastforce
  with rest show ?case by simp
qed

lemma upt_0_Suc: "[0..<Suc n] = 0 # map Suc [0..<n]"
  by (simp add: upt_conv_Cons map_Suc_upt del: upt_Suc)

lemma rebase_results_offsets:
  "rebase_results off (map (\<lambda>c. \<lparr>result = R c, lines = L c\<rparr>) cs) =
     concat (map (\<lambda>k. map (rebase (off + int (sum_list (map L (take k cs)))))
                         (result_messages (R (cs ! k)))) [0..<length cs])"
proof (induction cs arbitrary: off)
  case Nil
  then show ?case by simp
next
  case (Cons c cs)
  have head: "(case R c of None \<Rightarrow> [] | Some r \<Rightarrow>
                 (case kernel_messages r of None \<Rightarrow> [] | Some msgs \<Rightarrow> map (rebase off) msgs)) =
              map (rebase off) (result_messages (R c))"
    by (simp add: result_messages_def split: option.splits)
  show ?case
    by (simp add: Cons.IH head upt_0_Suc comp_def add.assoc del: upt_Suc)
qed


lemma mergeChunkResults_messages:
  "kernel_messages (mergeChunkResults results) = Some (sort_key line (rebase_results 0 results))"
  by (cases results) (simp_all add: mergeChunkResults_def)

text \<open>
  C7. In a chunked run where every chunk call succeeds, the findings of the result are the
  findings of the chunks, in chunk order, each re-based by the number of lines of all the
  chunks before its own, then sorted by line (stably). On a document of 2500 lines with
  chunk size 1000 and an analyzer that reports line 1 on whatever it is given, the findings
  are on lines 1, 1001 and 2001.
\<close>

theorem chunked_run_rebases_and_sorts:
  assumes "length (split_lines text) \<ge> 1000"
    and "chunkSize strategy = Some n" and "n > 0"
    and "chunks = chunk_lines n (split_lines text)"
    and "\<forall>chunk \<in> set chunks.
           chunk_succeeds (processFunction chunk)
             (processingTimeout strategy / of_nat (length chunks))"
  shows "\<exists>t r. processWithKuromojiOptimization text processFunction strategy =
                  Settles t (Resolve (Some r))
             \<and> kernel_messages r =
                 Some (sort_key line
                   (concat (map (\<lambda>k. map (rebase (int (sum_list
                                            (map (\<lambda>c. length (split_lines c)) (take k chunks)))))
                                         (result_messages
                                            (resolved_value (processFunction (chunks ! k)))))
                              [0..<length chunks])))
             \<and> sorted (map line (the (kernel_messages r)))"
proof -
  let ?chunkData = "map (\<lambda>chunk. \<lparr>chunk_content = chunk,
                      chunk_lines_count = length (split_lines chunk)\<rparr>) chunks"
  let ?timeout = "processingTimeout strategy / of_nat (length ?chunkData)"
  let ?results = "map (\<lambda>c. \<lparr>result = resolved_value (processFunction c),
                            lines = length (split_lines c)\<rparr>) chunks"
  have "\<forall>chunk \<in> set ?chunkData. chunk_succeeds (processFunction (chunk_content chunk)) ?timeout"
    using assms(5) by simp
  then obtain t where "run_chunks processFunction ?timeout ?chunkData =
      Settles t (Resolve (map (\<lambda>chunk. \<lparr>result = resolved_value (processFunction (chunk_content chunk)),
                                         lines = chunk_lines_count chunk\<rparr>) ?chunkData))"
    using run_chunks_all_succeed by blast
  then have run: "run_chunks processFunction ?timeout ?chunkData = Settles t (Resolve ?results)"
    by (simp add: comp_def)
  have whole: "processWithKuromojiOptimization text processFunction strategy =
                 Settles t (Resolve (Some (mergeChunkResults ?results)))"
    using assms(1-4) run
    by (simp add: processWithKuromojiOptimization_def createProcessingChunks_def Let_def)
  have msgs: "kernel_messages (mergeChunkResults ?results) =
      Some (sort_key line
        (concat (map (\<lambda>k. map (rebase (int (sum_list
                                 (map (\<lambda>c. length (split_lines c)) (take k chunks)))))
                              (result_messages (resolved_value (processFunction (chunks ! k)))))
                   [0..<length chunks])))"
    using rebase_results_offsets
      [of 0 "\<lambda>c. resolved_value (processFunction c)" "\<lambda>c. length (split_lines c)" chunks]
    by (simp add: mergeChunkResults_messages)
  show ?thesis
    using whole msgs by simp
qed

lemma join_lines_empties: "join_lines (replicate (Suc k) []) = replicate k (CHR 0x0A)"
  by (induction k) simp_all

lemma join_lines_empties': "0 < k \<Longrightarrow> join_lines (replicate k []) = replicate (k - 1) (CHR 0x0A)"
  using join_lines_empties [of "k - 1"] by simp

lemma chunk_lines_2500:
  "chunk_lines 1000 (replicate 2500 []) =
     [replicate 999 (CHR 0x0A), replicate 999 (CHR 0x0A), replicate 499 (CHR 0x0A)]"
proof -
  have a: "chunk_lines 1000 (replicate 2500 []) =
             join_lines (replicate 1000 []) # chunk_lines 1000 (replicate 1500 [])"
    by (subst chunk_lines.simps) simp
  have b: "chunk_lines 1000 (replicate 1500 []) =
             join_lines (replicate 1000 []) # chunk_lines 1000 (replicate 500 [])"
    by (subst chunk_lines.simps) simp
  have c: "chunk_lines 1000 (replicate 500 []) =
             join_lines (replicate 500 []) # chunk_lines 1000 []"
    by (subst chunk_lines.simps) simp
  have d: "chunk_lines 1000 ([] :: string list) = []"
    by (subst chunk_lines.simps) simp
  show ?thesis
    by (simp add: a b c d join_lines_empties')
qed

lemma upt_3: "[0..<3] = [0, 1, 2]"
  by (simp add: upt_rec)

theorem chunked_run_rebases_and_sorts_witness:
  "\<exists>t r. processWithKuromojiOptimization (replicate 2499 (CHR 0x0A))
            (\<lambda>_. Settles 1 (Resolve (Some \<lparr>kernel_messages = Some [kernel_finding 1],
                                            kernel_filePath = None\<rparr>)))
            (STRATEGIES ! 1) = Settles t (Resolve (Some r))
         \<and> kernel_messages r =
             Some [kernel_finding 1, kernel_finding 1001, kernel_finding 2001]"
proof -
  let ?text = "replicate 2499 (CHR 0x0A)"
  let ?f = "\<lambda>_::string. Settles 1 (Resolve (Some \<lparr>kernel_messages = Some [kernel_finding 1],
                                            kernel_filePath = None\<rparr>))"
  let ?chunks = "[replicate 999 (CHR 0x0A), replicate 999 (CHR 0x0A), replicate 499 (CHR 0x0A)]"
  have h1: "length (split_lines ?text) \<ge> 1000"
    by (simp add: split_lines_newlines)
  have h2: "chunkSize (STRATEGIES ! 1) = Some 1000"
    by (simp add: STRATEGIES_def)
  have h4: "?chunks = chunk_lines 1000 (split_lines ?text)"
    by (simp add: split_lines_newlines chunk_lines_2500)
  have h5: "\<forall>chunk \<in> set ?chunks. chunk_succeeds (?f chunk)
              (processingTimeout (STRATEGIES ! 1) / of_nat (length ?chunks))"
    by (simp add: chunk_succeeds_def processWithTimeout_def STRATEGIES_def)
  have r: "\<And>l off. rebase off (kernel_finding l) = kernel_finding (l + off)"
    by (simp add: rebase_def kernel_finding_def truthy_number_def)
  have l: "\<And>l. line (kernel_finding l) = l"
    by (simp add: kernel_finding_def)
  show ?thesis
    using chunked_run_rebases_and_sorts [OF h1 h2 _ h4 h5]
    by (simp add: upt_3 split_lines_newlines resolved_value_def result_messages_def r l) blast
qed

section \<open>Properties of the plugin\<close>

text \<open>
  C3 as stated fails. A run starts on the text \<open>a\<close> and suspends for the analysis; the
  document becomes \<open>b\<close>, whose digest differs from the one computed at the start; the
  analysis resolves with one finding, and the run puts it on the display.
\<close>

theorem lintCurrentFile_applies_stale_result_counterexample:
  "(case lintCurrentFile_begin generateSimpleHash fresh_plugin 0 (Some (''a.md'', ''a'')) None of
      Returned st \<Rightarrow> False
    | Awaiting st p \<Rightarrow>
        pending_contentHash p = generateSimpleHash ''a''
        \<and> generateSimpleHash ''b'' \<noteq> pending_contentHash p
        \<and> lintCurrentFile_analysis p (\<lambda>_. Settles 1 (Resolve one_finding)) =
            Settles 1 (Resolve one_finding)
        \<and> highlights st = [] \<and> view st = None
        \<and> highlights (lintCurrentFile_resume st 5 p ''b'' (Resolve one_finding)) =
            [toMessage (kernel_finding 1)]
        \<and> view (lintCurrentFile_resume st 5 p ''b'' (Resolve one_finding)) =
            Some ([toMessage (kernel_finding 1)], ''a.md''))"
  by code_simp

text \<open>
  C3, as the code has it. When the analysis resolves with findings, the run stores them in
  the result cache under the key and digest computed at its start and applies them to the
  highlights and the view, whatever the text of the document is at that time.
\<close>

theorem lintCurrentFile_resume_applies:
  assumes "kernel_messages r = Some kernelMessages"
  shows "highlights (lintCurrentFile_resume st now p currentContent (Resolve (Some r))) =
           map toMessage kernelMessages
       \<and> view (lintCurrentFile_resume st now p currentContent (Resolve (Some r))) =
           Some (map toMessage kernelMessages, pending_file p)
       \<and> resultCache (lintCurrentFile_resume st now p currentContent (Resolve (Some r))) =
           Cache_set (resultCache st) now (pending_cacheKey p) (map toMessage kernelMessages)
             (Some (pending_contentHash p))"
  using assms by (simp add: lintCurrentFile_resume_def applyResults_def Let_def)

theorem lintCurrentFile_resume_applies_witness:
  "highlights (lintCurrentFile_resume fresh_plugin 5
      \<lparr>pending_file = ''a.md'', pending_content = ''a'', pending_contentHash = ''97_1'',
       pending_cacheKey = ''a.md_97_1'', pending_strategy = getOptimalStrategy ''a''\<rparr>
      ''b'' (Resolve (Some \<lparr>kernel_messages = Some [kernel_finding 1], kernel_filePath = None\<rparr>))) =
     [toMessage (kernel_finding 1)]
   \<and> view (lintCurrentFile_resume fresh_plugin 5
      \<lparr>pending_file = ''a.md'', pending_content = ''a'', pending_contentHash = ''97_1'',
       pending_cacheKey = ''a.md_97_1'', pending_strategy = getOptimalStrategy ''a''\<rparr>
      ''b'' (Resolve (Some \<lparr>kernel_messages = Some [kernel_finding 1], kernel_filePath = None\<rparr>))) =
     Some ([toMessage (kernel_finding 1)], ''a.md'')"
  using lintCurrentFile_resume_applies
    [of "\<lparr>kernel_messages = Some [kernel_finding 1], kernel_filePath = None\<rparr>"
        "[kernel_finding 1]" fresh_plugin 5
        "\<lparr>pending_file = ''a.md'', pending_content = ''a'', pending_contentHash = ''97_1'',
          pending_cacheKey = ''a.md_97_1'', pending_strategy = getOptimalStrategy ''a''\<rparr>" "''b''"]
  by simp

end
